theory Spec2Isabelle
  imports Complex_Main
begin

section \<open>A feed-forward network with ReLU hidden layers and a softmax output\<close>

text \<open>
  The development follows \<^verbatim>\<open>neural_network.cpp\<close>.  A \<^verbatim>\<open>double\<close> is read as a real
  number, so every statement below is about exact arithmetic; the single place where a
  quotient of two finite doubles is not a number (the final division of
  \<^verbatim>\<open>evaluateAccuracy\<close>) has a result type of its own.  An index past the end of a
  \<^verbatim>\<open>vector\<close>, \<^verbatim>\<open>back()\<close> of an empty vector and the dereference of an end iterator
  have no defined behaviour in the source; each is the result \<open>Inl OutOfBounds\<close> here.
  \<^verbatim>\<open>resize\<close> with a negative \<^verbatim>\<open>int\<close> asks for more than \<^verbatim>\<open>max_size()\<close> elements and
  throws; that is \<open>Inl LengthError\<close>.
\<close>

subsection \<open>Data\<close>

datatype error = OutOfBounds | LengthError

text \<open>The field \<^verbatim>\<open>value\<close> of a neuron is \<open>value_n\<close> here.\<close>

record Neuron =
  value_n :: real
  weights :: "real list"
  bias :: real

record Layer =
  neurons :: "Neuron list"

record NeuralNetwork =
  layers :: "Layer list"
  learningRate :: real

text \<open>The quotient of two finite doubles: a number, an infinity, or not a number.\<close>

datatype quotient = Finite real | PlusInfinity | MinusInfinity | NaN

definition double_div :: "real \<Rightarrow> real \<Rightarrow> quotient" where
  "double_div a b =
     (if b \<noteq> 0 then Finite (a / b)
      else if a = 0 then NaN
      else if 0 < a then PlusInfinity else MinusInfinity)"

subsection \<open>Construction\<close>

text \<open>
  \<^verbatim>\<open>Layer::Layer\<close> seeds a generator of its own from \<^verbatim>\<open>random_device\<close>.  The sequence
  of numbers that generator hands out is the parameter \<open>dis\<close>: neuron \<open>j\<close> takes
  \<open>prevLayerNeuronCount\<close> draws for its weights and one more for its bias.  A neuron
  made by \<^verbatim>\<open>resize\<close> is value-initialised, so its activation starts at zero.
\<close>

definition Layer_init :: "int \<Rightarrow> int \<Rightarrow> (nat \<Rightarrow> real) \<Rightarrow> error + Layer" where
  "Layer_init neuronCount prevLayerNeuronCount dis =
     (if neuronCount < 0 then Inl LengthError
      else if 0 < neuronCount \<and> prevLayerNeuronCount < 0 then Inl LengthError
      else
        let p = nat prevLayerNeuronCount in
        Inr \<lparr>neurons =
              map (\<lambda>j. \<lparr>value_n = 0,
                        weights = map (\<lambda>k. dis (j * (p + 1) + k)) [0..<p],
                        bias = dis (j * (p + 1) + p)\<rparr>)
                  [0..<nat neuronCount]\<rparr>)"

definition getOutputs :: "Layer \<Rightarrow> real list" where
  "getOutputs l = map value_n (neurons l)"

text \<open>
  The constructor's loop \<^verbatim>\<open>for (i = 1; i < layerSizes.size(); ++i)\<close>; \<open>gens i\<close> is the
  generator of the layer built in round \<open>i\<close>.  The first exception ends the construction.
\<close>

fun emplace_layers :: "int list \<Rightarrow> (nat \<Rightarrow> nat \<Rightarrow> real) \<Rightarrow> nat list \<Rightarrow> error + Layer list" where
  "emplace_layers layerSizes gens [] = Inr []"
| "emplace_layers layerSizes gens (i # is) =
     (case Layer_init (layerSizes ! i) (layerSizes ! (i - 1)) (gens i) of
        Inl e \<Rightarrow> Inl e
      | Inr l \<Rightarrow>
          (case emplace_layers layerSizes gens is of
             Inl e \<Rightarrow> Inl e
           | Inr ls \<Rightarrow> Inr (l # ls)))"

definition NeuralNetwork_init ::
  "int list \<Rightarrow> real \<Rightarrow> (nat \<Rightarrow> nat \<Rightarrow> real) \<Rightarrow> error + NeuralNetwork" where
  "NeuralNetwork_init layerSizes lr gens =
     (case emplace_layers layerSizes gens [1..<length layerSizes] of
        Inl e \<Rightarrow> Inl e
      | Inr ls \<Rightarrow> Inr \<lparr>layers = ls, learningRate = lr\<rparr>)"

subsection \<open>Activation functions\<close>

definition relu :: "real \<Rightarrow> real" where
  "relu x = (if x > 0 then x else 0)"

definition reluDerivative :: "real \<Rightarrow> real" where
  "reluDerivative x = (if x > 0 then 1 else 0)"

text \<open>
  \<^verbatim>\<open>std::max_element\<close> as an index: it starts with the first position and moves to a
  later one only when the comparison says that the later element is greater, so that on
  an empty range it answers the end position \<open>0 = length xs\<close>.
\<close>

definition max_element :: "('a \<Rightarrow> 'a \<Rightarrow> bool) \<Rightarrow> 'a list \<Rightarrow> nat" where
  "max_element cmp xs =
     foldl (\<lambda>largest i. if cmp (xs ! largest) (xs ! i) then i else largest) 0 [1..<length xs]"

definition softmax :: "real list \<Rightarrow> error + real list" where
  "softmax x =
     (if x = [] then Inl OutOfBounds
      else
        let maxElement = x ! max_element (<) x;
            result = map (\<lambda>i. exp (x ! i - maxElement)) [0..<length x];
            expSum = foldl (+) 0 result
        in Inr (map (\<lambda>element. element / expSum) result))"

subsection \<open>Forward propagation\<close>

text \<open>The first loop: the neurons of \<^verbatim>\<open>layers[0]\<close> take the input values, index by index.\<close>

definition set_input_values :: "Layer \<Rightarrow> real list \<Rightarrow> error + Layer" where
  "set_input_values l inputValues =
     (if length (neurons l) \<le> length inputValues
      then Inr (l\<lparr>neurons :=
                   map (\<lambda>i. (neurons l ! i)\<lparr>value_n := inputValues ! i\<rparr>) [0..<length (neurons l)]\<rparr>)
      else Inl OutOfBounds)"

text \<open>The innermost loop: the sum over the neurons of the layer before.\<close>

definition weighted_sum :: "Layer \<Rightarrow> Neuron \<Rightarrow> error + real" where
  "weighted_sum prev neuron =
     (if length (neurons prev) \<le> length (weights neuron)
      then Inr (foldl (\<lambda>acc j. acc + value_n (neurons prev ! j) * weights neuron ! j) 0
                  [0..<length (neurons prev)])
      else Inl OutOfBounds)"

definition forward_neuron :: "bool \<Rightarrow> Layer \<Rightarrow> Neuron \<Rightarrow> error + Neuron" where
  "forward_neuron is_output prev neuron =
     (case weighted_sum prev neuron of
        Inl e \<Rightarrow> Inl e
      | Inr s \<Rightarrow>
          Inr (neuron\<lparr>value_n := (if \<not> is_output then relu (s + bias neuron) else s + bias neuron)\<rparr>))"

fun forward_neurons :: "bool \<Rightarrow> Layer \<Rightarrow> Neuron list \<Rightarrow> error + Neuron list" where
  "forward_neurons is_output prev [] = Inr []"
| "forward_neurons is_output prev (neuron # rest) =
     (case forward_neuron is_output prev neuron of
        Inl e \<Rightarrow> Inl e
      | Inr neuron' \<Rightarrow>
          (case forward_neurons is_output prev rest of
             Inl e \<Rightarrow> Inl e
           | Inr rest' \<Rightarrow> Inr (neuron' # rest')))"

text \<open>One round of the loop over the layers; the output layer is normalised by softmax.\<close>

definition forward_layer :: "bool \<Rightarrow> Layer \<Rightarrow> Layer \<Rightarrow> error + Layer" where
  "forward_layer is_output prev l =
     (case forward_neurons is_output prev (neurons l) of
        Inl e \<Rightarrow> Inl e
      | Inr ns \<Rightarrow>
          if is_output then
            (case softmax (getOutputs (l\<lparr>neurons := ns\<rparr>)) of
               Inl e \<Rightarrow> Inl e
             | Inr outputs \<Rightarrow>
                 Inr (l\<lparr>neurons := map (\<lambda>j. (ns ! j)\<lparr>value_n := outputs ! j\<rparr>) [0..<length ns]\<rparr>))
          else Inr (l\<lparr>neurons := ns\<rparr>))"

text \<open>
  The loop \<^verbatim>\<open>for (i = 1; i < layers.size(); ++i)\<close>: \<open>prev\<close> is \<^verbatim>\<open>layers[i - 1]\<close> as the
  rounds before left it, and the layer in hand is the output layer when none follows.
\<close>

fun forward_from :: "Layer \<Rightarrow> Layer list \<Rightarrow> error + Layer list" where
  "forward_from prev [] = Inr []"
| "forward_from prev (l # ls) =
     (case forward_layer (ls = []) prev l of
        Inl e \<Rightarrow> Inl e
      | Inr l' \<Rightarrow>
          (case forward_from l' ls of
             Inl e \<Rightarrow> Inl e
           | Inr ls' \<Rightarrow> Inr (l' # ls')))"

definition forwardPropagation :: "NeuralNetwork \<Rightarrow> real list \<Rightarrow> error + NeuralNetwork" where
  "forwardPropagation n inputValues =
     (case layers n of
        [] \<Rightarrow> Inl OutOfBounds
      | l0 # ls \<Rightarrow>
          (case set_input_values l0 inputValues of
             Inl e \<Rightarrow> Inl e
           | Inr l0' \<Rightarrow>
               (case forward_from l0' ls of
                  Inl e \<Rightarrow> Inl e
                | Inr ls' \<Rightarrow> Inr (n\<lparr>layers := l0' # ls'\<rparr>))))"

subsection \<open>Backward propagation\<close>

definition output_deltas :: "Layer \<Rightarrow> real list \<Rightarrow> error + real list" where
  "output_deltas out targetValues =
     (if length (neurons out) \<le> length targetValues
      then Inr (map (\<lambda>i. value_n (neurons out ! i) - targetValues ! i) [0..<length (neurons out)])
      else Inl OutOfBounds)"

text \<open>
  The deltas of \<^verbatim>\<open>layers[i]\<close> from the layer after it and that layer's deltas.  Every
  neuron of the next layer is read at each index of this layer, and the delta vector at
  each index of the next layer.
\<close>

definition hidden_delta_layer :: "Layer \<Rightarrow> Layer \<Rightarrow> real list \<Rightarrow> error + real list" where
  "hidden_delta_layer l next nextDeltas =
     (if neurons l = [] then Inr []
      else if list_all (\<lambda>nk. length (neurons l) \<le> length (weights nk)) (neurons next)
              \<and> length (neurons next) \<le> length nextDeltas
      then Inr (map (\<lambda>j. foldl (\<lambda>sum k. sum + weights (neurons next ! k) ! j * nextDeltas ! k) 0
                             [0..<length (neurons next)]
                           * reluDerivative (value_n (neurons l ! j)))
                  [0..<length (neurons l)])
      else Inl OutOfBounds)"

text \<open>
  The loop \<^verbatim>\<open>for (int i = layers.size() - 2; i >= 0; --i)\<close>: the deltas of the later
  layers are there before those of \<^verbatim>\<open>layers[i]\<close>, and the layer before the last takes
  \<^verbatim>\<open>outputDeltas\<close> where the others take \<^verbatim>\<open>hiddenDeltas[i + 1]\<close>.  The result lists
  \<^verbatim>\<open>hiddenDeltas[0]\<close>, ..., \<^verbatim>\<open>hiddenDeltas[layers.size() - 2]\<close>.
\<close>

fun hidden_deltas :: "Layer list \<Rightarrow> real list \<Rightarrow> error + real list list" where
  "hidden_deltas [] outputDeltas = Inr []"
| "hidden_deltas [l] outputDeltas = Inr []"
| "hidden_deltas (l # next # ls) outputDeltas =
     (case hidden_deltas (next # ls) outputDeltas of
        Inl e \<Rightarrow> Inl e
      | Inr hiddenDeltas \<Rightarrow>
          (case hidden_delta_layer l next (if ls = [] then outputDeltas else hd hiddenDeltas) of
             Inl e \<Rightarrow> Inl e
           | Inr h \<Rightarrow> Inr (h # hiddenDeltas)))"

definition update_neuron :: "real \<Rightarrow> Layer \<Rightarrow> real \<Rightarrow> Neuron \<Rightarrow> error + Neuron" where
  "update_neuron lr prev delta neuron =
     (if length (weights neuron) \<le> length (neurons prev)
      then Inr (neuron\<lparr>weights :=
                        map (\<lambda>k. weights neuron ! k - lr * delta * value_n (neurons prev ! k))
                          [0..<length (weights neuron)],
                      bias := bias neuron - lr * delta\<rparr>)
      else Inl OutOfBounds)"

fun update_neurons :: "real \<Rightarrow> Layer \<Rightarrow> real list \<Rightarrow> Neuron list \<Rightarrow> error + Neuron list" where
  "update_neurons lr prev deltas [] = Inr []"
| "update_neurons lr prev [] (neuron # rest) = Inl OutOfBounds"
| "update_neurons lr prev (delta # deltas) (neuron # rest) =
     (case update_neuron lr prev delta neuron of
        Inl e \<Rightarrow> Inl e
      | Inr neuron' \<Rightarrow>
          (case update_neurons lr prev deltas rest of
             Inl e \<Rightarrow> Inl e
           | Inr rest' \<Rightarrow> Inr (neuron' # rest')))"

text \<open>
  The loop \<^verbatim>\<open>for (size_t i = layers.size() - 1; i > 0; --i)\<close>: it runs from the last
  layer down to \<^verbatim>\<open>layers[1]\<close>, so the later layers are updated first, and \<open>prev\<close>, which
  is \<^verbatim>\<open>layers[i - 1]\<close>, is read before its own round.  The list of deltas holds one
  vector for each of \<^verbatim>\<open>layers[1]\<close>, ..., the last layer.
\<close>

fun update_from :: "real \<Rightarrow> Layer \<Rightarrow> Layer list \<Rightarrow> real list list \<Rightarrow> error + Layer list" where
  "update_from lr prev [] deltas = Inr []"
| "update_from lr prev (l # ls) [] = Inl OutOfBounds"
| "update_from lr prev (l # ls) (d # deltas) =
     (case update_from lr l ls deltas of
        Inl e \<Rightarrow> Inl e
      | Inr ls' \<Rightarrow>
          (case update_neurons lr prev d (neurons l) of
             Inl e \<Rightarrow> Inl e
           | Inr ns \<Rightarrow> Inr (l\<lparr>neurons := ns\<rparr> # ls')))"

definition backPropagation :: "NeuralNetwork \<Rightarrow> real list \<Rightarrow> error + NeuralNetwork" where
  "backPropagation n targetValues =
     (case layers n of
        [] \<Rightarrow> Inl OutOfBounds
      | l0 # ls \<Rightarrow>
          (case output_deltas (last (l0 # ls)) targetValues of
             Inl e \<Rightarrow> Inl e
           | Inr outputDeltas \<Rightarrow>
               (case hidden_deltas (l0 # ls) outputDeltas of
                  Inl e \<Rightarrow> Inl e
                | Inr hiddenDeltas \<Rightarrow>
                    (case update_from (learningRate n) l0 ls (tl (hiddenDeltas @ [outputDeltas])) of
                       Inl e \<Rightarrow> Inl e
                     | Inr ls' \<Rightarrow> Inr (n\<lparr>layers := l0 # ls'\<rparr>)))))"

subsection \<open>Training, prediction, accuracy\<close>

text \<open>The inner loop of \<^verbatim>\<open>train\<close>, over the samples from index \<open>i\<close> on.\<close>

fun train_samples ::
  "NeuralNetwork \<Rightarrow> real list list \<Rightarrow> real list list \<Rightarrow> error + NeuralNetwork" where
  "train_samples n [] targets = Inr n"
| "train_samples n (input # inputs) targets =
     (case forwardPropagation n input of
        Inl e \<Rightarrow> Inl e
      | Inr n1 \<Rightarrow>
          (case targets of
             [] \<Rightarrow> Inl OutOfBounds
           | target # targets' \<Rightarrow>
               (case backPropagation n1 target of
                  Inl e \<Rightarrow> Inl e
                | Inr n2 \<Rightarrow> train_samples n2 inputs targets')))"

fun train_epochs ::
  "nat \<Rightarrow> NeuralNetwork \<Rightarrow> real list list \<Rightarrow> real list list \<Rightarrow> error + NeuralNetwork" where
  "train_epochs 0 n inputs targets = Inr n"
| "train_epochs (Suc k) n inputs targets =
     (case train_samples n inputs targets of
        Inl e \<Rightarrow> Inl e
      | Inr n' \<Rightarrow> train_epochs k n' inputs targets)"

definition train ::
  "NeuralNetwork \<Rightarrow> real list list \<Rightarrow> real list list \<Rightarrow> int \<Rightarrow> error + NeuralNetwork" where
  "train n inputs targets epochs = train_epochs (nat epochs) n inputs targets"

definition predict :: "NeuralNetwork \<Rightarrow> real list \<Rightarrow> error + int \<times> NeuralNetwork" where
  "predict n input =
     (case forwardPropagation n input of
        Inl e \<Rightarrow> Inl e
      | Inr n' \<Rightarrow>
          if layers n' = [] then Inl OutOfBounds
          else Inr (int (max_element (\<lambda>a b. value_n a < value_n b) (neurons (last (layers n')))), n'))"

text \<open>
  The loop of \<^verbatim>\<open>evaluateAccuracy\<close>; \<open>correctPredictions\<close> is its counter.  The target
  vector is read after the forward pass.
\<close>

fun count_correct ::
  "NeuralNetwork \<Rightarrow> int \<Rightarrow> real list list \<Rightarrow> real list list \<Rightarrow> error + int \<times> NeuralNetwork" where
  "count_correct n correctPredictions [] outputs = Inr (correctPredictions, n)"
| "count_correct n correctPredictions (input # inputs) outputs =
     (case forwardPropagation n input of
        Inl e \<Rightarrow> Inl e
      | Inr n' \<Rightarrow>
          if layers n' = [] then Inl OutOfBounds
          else
            (case outputs of
               [] \<Rightarrow> Inl OutOfBounds
             | output # outputs' \<Rightarrow>
                 let predictedClass =
                       int (max_element (\<lambda>a b. value_n a < value_n b) (neurons (last (layers n'))));
                     actualClass = int (max_element (<) output)
                 in count_correct n'
                      (if predictedClass = actualClass then correctPredictions + 1
                       else correctPredictions)
                      inputs outputs'))"

definition evaluateAccuracy ::
  "NeuralNetwork \<Rightarrow> real list list \<Rightarrow> real list list \<Rightarrow> error + quotient \<times> NeuralNetwork" where
  "evaluateAccuracy n inputs outputs =
     (case count_correct n 0 inputs outputs of
        Inl e \<Rightarrow> Inl e
      | Inr (correctPredictions, n') \<Rightarrow>
          Inr (double_div (of_int correctPredictions) (of_nat (length inputs)), n'))"

subsection \<open>Auxiliary notions for the statements below\<close>

text \<open>
  \<open>set_first_params g n\<close> replaces the weights and the bias of neuron \<open>j\<close> of
  \<^verbatim>\<open>layers[0]\<close> by \<open>g j\<close> and leaves everything else, the activations included, as it
  is; \<open>first_params\<close> reads those weights and biases.
\<close>

definition reparam_layer :: "(nat \<Rightarrow> real list \<times> real) \<Rightarrow> Layer \<Rightarrow> Layer" where
  "reparam_layer g l =
     l\<lparr>neurons := map (\<lambda>j. (neurons l ! j)\<lparr>weights := fst (g j), bias := snd (g j)\<rparr>) [0..<length (neurons l)]\<rparr>"

definition set_first_params :: "(nat \<Rightarrow> real list \<times> real) \<Rightarrow> NeuralNetwork \<Rightarrow> NeuralNetwork" where
  "set_first_params g n =
     (case layers n of [] \<Rightarrow> n | l0 # ls \<Rightarrow> n\<lparr>layers := reparam_layer g l0 # ls\<rparr>)"

definition first_params :: "NeuralNetwork \<Rightarrow> (real list \<times> real) list" where
  "first_params n =
     (case layers n of [] \<Rightarrow> [] | l0 # ls \<Rightarrow> map (\<lambda>a. (weights a, bias a)) (neurons l0))"

text \<open>
  \<open>params_of\<close> is what training is meant to determine: the learning rate and every
  weight and bias, without the activations.  \<open>rebuild\<close> makes a network with those
  parameters and all activations zero.
\<close>

definition clear_neuron :: "Neuron \<Rightarrow> Neuron" where
  "clear_neuron a = a\<lparr>value_n := 0\<rparr>"

definition clear_layer :: "Layer \<Rightarrow> Layer" where
  "clear_layer l = l\<lparr>neurons := map clear_neuron (neurons l)\<rparr>"

definition params_of :: "NeuralNetwork \<Rightarrow> real \<times> (real list \<times> real) list list" where
  "params_of n =
     (learningRate n, map (\<lambda>l. map (\<lambda>a. (weights a, bias a)) (neurons l)) (layers n))"

definition rebuild :: "real \<times> (real list \<times> real) list list \<Rightarrow> NeuralNetwork" where
  "rebuild p =
     \<lparr>layers = map (\<lambda>ps. \<lparr>neurons = map (\<lambda>(w, b). \<lparr>value_n = 0, weights = w, bias = b\<rparr>) ps\<rparr>) (snd p),
      learningRate = fst p\<rparr>"

text \<open>
  The forward pass in the words of the specification, for comparison with
  \<open>forwardPropagation\<close>: the input vector is the activation of a virtual layer 0, every
  layer of the network is a real layer, a neuron's raw value is its bias plus the sum of
  the products of the previous activations and its weights, a layer that is not the last
  applies ReLU and the last layer applies softmax.
\<close>

definition spec_softmax :: "real list \<Rightarrow> real list" where
  "spec_softmax x = map (\<lambda>xi. exp (xi - Max (set x)) / (\<Sum>xj\<leftarrow>x. exp (xj - Max (set x)))) x"

definition spec_raw :: "real list \<Rightarrow> Neuron \<Rightarrow> real" where
  "spec_raw activation neuron =
     bias neuron + (\<Sum>k\<leftarrow>[0..<length activation]. activation ! k * weights neuron ! k)"

fun spec_activations :: "real list \<Rightarrow> Layer list \<Rightarrow> real list list" where
  "spec_activations activation [] = []"
| "spec_activations activation (l # ls) =
     (let raw = map (spec_raw activation) (neurons l);
          a = (if ls \<noteq> [] then map (max 0) raw else spec_softmax raw)
      in a # spec_activations a ls)"

text \<open>
  Two small networks.  \<open>example_net\<close> is what \<^verbatim>\<open>NeuralNetwork({1, 1, 2}, 0.01)\<close> builds
  when the generators draw \<open>1/2, 1/2\<close> for the first layer and \<open>1/2, 0, 0, 0\<close> for the
  second; \<open>zero_net\<close> has the same shape and every weight and bias zero.
\<close>

definition example_net :: NeuralNetwork where
  "example_net =
     \<lparr>layers =
        [\<lparr>neurons = [\<lparr>value_n = 0, weights = [1/2], bias = 1/2\<rparr>]\<rparr>,
         \<lparr>neurons = [\<lparr>value_n = 0, weights = [1/2], bias = 0\<rparr>,
                     \<lparr>value_n = 0, weights = [0], bias = 0\<rparr>]\<rparr>],
      learningRate = 1/100\<rparr>"

definition zero_net :: NeuralNetwork where
  "zero_net =
     \<lparr>layers =
        [\<lparr>neurons = [\<lparr>value_n = 0, weights = [0], bias = 0\<rparr>]\<rparr>,
         \<lparr>neurons = [\<lparr>value_n = 0, weights = [0], bias = 0\<rparr>,
                     \<lparr>value_n = 0, weights = [0], bias = 0\<rparr>]\<rparr>],
      learningRate = 1/100\<rparr>"

section \<open>Properties\<close>

subsection \<open>The position of the first greatest element\<close>

lemma max_element_prefix:
  fixes xs :: "'a::linorder list"
  assumes "n < length xs"
  shows "foldl (\<lambda>largest i. if xs ! largest < xs ! i then i else largest) 0 [1..<Suc n] \<le> n
       \<and> (\<forall>j\<le>n. xs ! j \<le> xs ! foldl (\<lambda>largest i. if xs ! largest < xs ! i then i else largest) 0 [1..<Suc n])
       \<and> (\<forall>j<foldl (\<lambda>largest i. if xs ! largest < xs ! i then i else largest) 0 [1..<Suc n].
             xs ! j < xs ! foldl (\<lambda>largest i. if xs ! largest < xs ! i then i else largest) 0 [1..<Suc n])"
  using assms
proof (induction n)
  case 0
  then show ?case by simp
next
  case (Suc n)
  define m where "m = foldl (\<lambda>largest i. if xs ! largest < xs ! i then i else largest) 0 [1..<Suc n]"
  have "n < length xs" using Suc.prems by simp
  from Suc.IH[OF this, folded m_def]
  have ih: "m \<le> n" "\<forall>j\<le>n. xs ! j \<le> xs ! m" "\<forall>j<m. xs ! j < xs ! m"
    by blast+
  have step: "foldl (\<lambda>largest i. if xs ! largest < xs ! i then i else largest) 0 [1..<Suc (Suc n)]
        = (if xs ! m < xs ! Suc n then Suc n else m)"
  proof -
    have "[1..<Suc (Suc n)] = [1..<Suc n] @ [Suc n]" by simp
    then show ?thesis unfolding m_def by (simp only: foldl_append foldl.simps)
  qed
  show ?case
  proof (cases "xs ! m < xs ! Suc n")
    case True
    have le: "xs ! j \<le> xs ! Suc n" if "j \<le> Suc n" for j
    proof (cases "j = Suc n")
      case True
      then show ?thesis by simp
    next
      case False
      with that have "j \<le> n" by simp
      with ih(2) have "xs ! j \<le> xs ! m" by blast
      with \<open>xs ! m < xs ! Suc n\<close> show ?thesis by order
    qed
    have less: "xs ! j < xs ! Suc n" if "j < Suc n" for j
    proof -
      from that have "j \<le> n" by simp
      with ih(2) have "xs ! j \<le> xs ! m" by blast
      with \<open>xs ! m < xs ! Suc n\<close> show ?thesis by order
    qed
    from le less True show ?thesis by (simp only: step if_True) blast
  next
    case False
    have le: "xs ! j \<le> xs ! m" if "j \<le> Suc n" for j
    proof (cases "j = Suc n")
      case True
      with False show ?thesis by simp
    next
      case F: False
      with that have "j \<le> n" by simp
      with ih(2) show ?thesis by blast
    qed
    have "m \<le> Suc n" using ih(1) by simp
    with le ih(3) False show ?thesis by (simp only: step if_False) blast
  qed
qed

lemma max_element_first_max:
  fixes xs :: "'a::linorder list"
  assumes "xs \<noteq> []"
  shows "max_element (<) xs < length xs"
    and "\<forall>j<length xs. xs ! j \<le> xs ! max_element (<) xs"
    and "\<forall>j<max_element (<) xs. xs ! j < xs ! max_element (<) xs"
proof -
  obtain n where n: "length xs = Suc n" using assms by (cases xs) auto
  have eq: "max_element (<) xs
      = foldl (\<lambda>largest i. if xs ! largest < xs ! i then i else largest) 0 [1..<Suc n]"
    by (simp only: max_element_def n)
  have "n < length xs" using n by simp
  from max_element_prefix[OF this, folded eq]
  have a: "max_element (<) xs \<le> n"
    and b: "\<forall>j\<le>n. xs ! j \<le> xs ! max_element (<) xs"
    and c: "\<forall>j<max_element (<) xs. xs ! j < xs ! max_element (<) xs"
    by blast+
  show "max_element (<) xs < length xs" using a n by simp
  show "\<forall>j<length xs. xs ! j \<le> xs ! max_element (<) xs" using b n by (simp add: less_Suc_eq_le)
  show "\<forall>j<max_element (<) xs. xs ! j < xs ! max_element (<) xs" by (rule c)
qed

lemma max_element_Max:
  fixes xs :: "'a::linorder list"
  assumes "xs \<noteq> []"
  shows "xs ! max_element (<) xs = Max (set xs)"
proof (rule Max_eqI[symmetric])
  show "finite (set xs)" by simp
  show "xs ! max_element (<) xs \<in> set xs"
    using max_element_first_max(1)[OF assms] by simp
  fix y assume "y \<in> set xs"
  then show "y \<le> xs ! max_element (<) xs"
    using max_element_first_max(2)[OF assms] by (metis in_set_conv_nth)
qed

lemma foldl_step_key:
  assumes "\<forall>i\<in>set is. i < length xs" "a < length xs"
  shows "foldl (\<lambda>largest i. if key (xs ! largest) < key (xs ! i) then i else largest) a is
       = foldl (\<lambda>largest i. if map key xs ! largest < map key xs ! i then i else largest) a is"
  using assms by (induction "is" arbitrary: a) auto

lemma max_element_key:
  "max_element (\<lambda>a b. key a < key b) xs = max_element (<) (map key xs)"
proof (cases "xs = []")
  case True
  then show ?thesis by (simp add: max_element_def)
next
  case False
  then show ?thesis
    unfolding max_element_def using foldl_step_key[of "[1..<length xs]" xs 0 key] by simp
qed

subsection \<open>Softmax\<close>

lemma foldl_plus_sum_list: "foldl (+) a xs = a + sum_list (xs :: real list)"
  by (induction xs arbitrary: a) simp_all

lemma sum_list_divide_const: "sum_list (map (\<lambda>e. e / s) xs) = sum_list xs / (s :: real)"
  by (induction xs) (simp_all add: add_divide_distrib)

lemma sum_list_exp_pos: "n > 0 \<Longrightarrow> 0 < sum_list (map (\<lambda>i. exp (f i :: real)) [0..<n])"
proof (induction n)
  case 0
  then show ?case by simp
next
  case (Suc n)
  have "0 \<le> sum_list (map (\<lambda>i. exp (f i)) [0..<n])"
    by (rule sum_list_nonneg) auto
  then show ?case by (simp add: add_nonneg_pos)
qed

lemma softmax_nonempty:
  assumes "x \<noteq> []"
  shows "softmax x =
    Inr (map (\<lambda>i. exp (x ! i - Max (set x)) / sum_list (map (\<lambda>j. exp (x ! j - Max (set x))) [0..<length x]))
          [0..<length x])"
  using assms
  by (simp add: softmax_def Let_def max_element_Max foldl_plus_sum_list comp_def)

lemma max_element_shift:
  "max_element (<) (map (\<lambda>v. v + c) x) = max_element (<) (x :: real list)"
  using max_element_key[of "\<lambda>v. v + c" x] by simp

lemma Max_shift:
  assumes "x \<noteq> []"
  shows "Max (set (map (\<lambda>v. v + c) x)) = Max (set x) + (c :: real)"
proof -
  have "map (\<lambda>v. v + c) x ! max_element (<) (map (\<lambda>v. v + c) x) = x ! max_element (<) x + c"
    using max_element_first_max(1)[OF assms] by (simp add: max_element_shift)
  then show ?thesis
    using max_element_Max[OF assms] max_element_Max[of "map (\<lambda>v. v + c) x"] assms by simp
qed

lemma softmax_shift:
  assumes "x \<noteq> []"
  shows "softmax (map (\<lambda>v. v + c) x) = softmax x"
proof -
  let ?y = "map (\<lambda>v. v + c) x"
  have y: "?y \<noteq> []" using assms by simp
  have M: "Max (set ?y) = Max (set x) + c" by (rule Max_shift[OF assms])
  have e: "exp (?y ! i - Max (set ?y)) = exp (x ! i - Max (set x))" if "i \<in> set [0..<length x]" for i
  proof -
    from that have "i < length x" by simp
    then have "?y ! i = x ! i + c" by simp
    then show ?thesis unfolding M by simp
  qed
  have s: "sum_list (map (\<lambda>j. exp (?y ! j - Max (set ?y))) [0..<length x])
         = sum_list (map (\<lambda>j. exp (x ! j - Max (set x))) [0..<length x])"
    by (rule arg_cong[where f = sum_list], rule map_cong[OF refl], rule e)
  have "map (\<lambda>i. exp (?y ! i - Max (set ?y)) / sum_list (map (\<lambda>j. exp (?y ! j - Max (set ?y))) [0..<length x])) [0..<length x]
      = map (\<lambda>i. exp (x ! i - Max (set x)) / sum_list (map (\<lambda>j. exp (x ! j - Max (set x))) [0..<length x])) [0..<length x]"
    unfolding s by (rule map_cong[OF refl], rule arg_cong[where f = "\<lambda>t. t / _"], rule e)
  then show ?thesis
    unfolding softmax_nonempty[OF assms] softmax_nonempty[OF y] length_map by (rule arg_cong)
qed

lemma softmax_sum:
  assumes "x \<noteq> []" "softmax x = Inr r"
  shows "sum_list r = 1"
proof -
  let ?S = "sum_list (map (\<lambda>j. exp (x ! j - Max (set x))) [0..<length x])"
  have pos: "0 < ?S" using assms(1) by (intro sum_list_exp_pos) simp
  have "r = map (\<lambda>e. e / ?S) (map (\<lambda>i. exp (x ! i - Max (set x))) [0..<length x])"
    using assms by (simp add: softmax_nonempty comp_def)
  then have "sum_list r = ?S / ?S" by (simp only: sum_list_divide_const)
  then show ?thesis using pos by simp
qed

text \<open>
  Claim C4, for non-empty vectors: \<open>softmax\<close> returns a vector of the same length whose
  entries sum to 1, entry \<open>i\<close> is \<open>exp (x\<^sub>i - max x)\<close> divided by the sum of all
  \<open>exp (x\<^sub>j - max x)\<close>, and adding a constant \<open>c\<close> to every component does not change
  the result.
\<close>

theorem softmax_properties:
  assumes "x \<noteq> []"
  shows "\<exists>r. softmax x = Inr r \<and> length r = length x \<and> sum_list r = 1
           \<and> (\<forall>i<length x. r ! i = exp (x ! i - Max (set x)) / (\<Sum>j<length x. exp (x ! j - Max (set x))))
           \<and> softmax (map (\<lambda>v. v + c) x) = Inr r"
proof -
  let ?S = "sum_list (map (\<lambda>j. exp (x ! j - Max (set x))) [0..<length x])"
  let ?r = "map (\<lambda>i. exp (x ! i - Max (set x)) / ?S) [0..<length x]"
  have r: "softmax x = Inr ?r" by (rule softmax_nonempty[OF assms])
  have S: "?S = (\<Sum>j<length x. exp (x ! j - Max (set x)))"
    by (simp add: interv_sum_list_conv_sum_set_nat atLeast0LessThan)
  have "length ?r = length x" by simp
  moreover have "sum_list ?r = 1" by (rule softmax_sum[OF assms r])
  moreover have "\<forall>i<length x. ?r ! i = exp (x ! i - Max (set x)) / (\<Sum>j<length x. exp (x ! j - Max (set x)))"
    unfolding S[symmetric] by simp
  moreover have "softmax (map (\<lambda>v. v + c) x) = Inr ?r"
    using softmax_shift[OF assms, of c] r by simp
  ultimately show ?thesis using r by blast
qed

theorem softmax_properties_witness:
  "[1, 3 :: real] \<noteq> []
   \<and> map_sum id sum_list (softmax [1, 3]) = Inr 1
   \<and> map_sum id (\<lambda>r. r ! 0) (softmax [1, 3]) = Inr (exp (- 2) / (exp (- 2) + 1))
   \<and> softmax (map (\<lambda>v. v + 10) [1, 3]) = softmax [1, 3]"
proof -
  from softmax_properties[of "[1, 3]" 10]
  obtain r where r: "softmax [1, 3] = Inr r" "sum_list r = 1"
    "\<forall>i<length [1, 3 :: real]. r ! i = exp ([1, 3] ! i - Max (set [1, 3])) / (\<Sum>j<length [1, 3 :: real]. exp ([1, 3] ! j - Max (set [1, 3])))"
    "softmax (map (\<lambda>v. v + 10) [1, 3]) = Inr r"
    by auto
  from r(3) have "r ! 0 = exp ([1, 3] ! 0 - Max (set [1, 3 :: real])) / (\<Sum>j<length [1, 3 :: real]. exp ([1, 3] ! j - Max (set [1, 3])))"
    by simp
  then have "r ! 0 = exp (- 2) / (exp (- 2) + 1)"
    by (simp add: lessThan_Suc numeral_2_eq_2)
  with r show ?thesis by simp
qed

text \<open>
  On the empty vector \<^verbatim>\<open>max_element\<close> answers the end iterator, which \<^verbatim>\<open>softmax\<close>
  dereferences: there is no result, and so none that sums to 1.
\<close>

theorem softmax_empty_vector: "softmax [] = Inl OutOfBounds"
  by (simp add: softmax_def)

subsection \<open>The forward pass and the first layer\<close>

lemma example_net_built:
  "NeuralNetwork_init [1, 1, 2] (1/100) (\<lambda>i k. if k = 0 then 1/2 else if i = 1 then 1/2 else 0) = Inr example_net"
  by (simp add: NeuralNetwork_init_def Layer_init_def example_net_def upt_rec)

text \<open>
  Claim C1 at \<open>example_net\<close> and the input \<open>[2]\<close>: the first real layer should hold
  \<open>ReLU (1/2 + 2 * 1/2) = 3/2\<close>; \<open>forwardPropagation\<close> stores the input \<open>2\<close> there, and
  its activations are not those of the specification.
\<close>

theorem forward_skips_first_layer_example:
  "map_sum id (\<lambda>n. map getOutputs (layers n)) (forwardPropagation example_net [2])
     \<noteq> Inr (spec_activations [2] (layers example_net))
   \<and> map_sum id (\<lambda>n. getOutputs (hd (layers n))) (forwardPropagation example_net [2]) = Inr [2]
   \<and> hd (spec_activations [2] (layers example_net)) = [3/2]"
  by (simp add: forwardPropagation_def example_net_def set_input_values_def getOutputs_def
        forward_layer_def forward_neuron_def weighted_sum_def relu_def softmax_def
        max_element_def Let_def spec_raw_def spec_softmax_def)

lemma emplace_layers_total:
  "\<forall>i\<in>set is. 0 \<le> layerSizes ! i \<and> 0 \<le> layerSizes ! (i - 1) \<Longrightarrow>
     \<exists>ls. emplace_layers layerSizes gens is = Inr ls"
proof (induction "is")
  case Nil
  then show ?case by simp
next
  case (Cons i "is")
  then obtain ls where "emplace_layers layerSizes gens is = Inr ls" by auto
  moreover have "\<exists>l. Layer_init (layerSizes ! i) (layerSizes ! (i - 1)) (gens i) = Inr l"
    using Cons.prems by (simp add: Layer_init_def Let_def)
  ultimately show ?case by auto
qed

lemma NeuralNetwork_init_total:
  assumes "list_all (\<lambda>s. 0 \<le> s) layerSizes"
  shows "\<exists>n. NeuralNetwork_init layerSizes lr gens = Inr n"
proof -
  have "\<forall>i\<in>set [1..<length layerSizes]. 0 \<le> layerSizes ! i \<and> 0 \<le> layerSizes ! (i - 1)"
    using assms by (auto simp: list_all_length)
  from emplace_layers_total[OF this, of gens] show ?thesis
    by (auto simp: NeuralNetwork_init_def)
qed

lemma NeuralNetwork_init_first_width:
  assumes "NeuralNetwork_init layerSizes lr gens = Inr n" and "2 \<le> length layerSizes"
  shows "\<exists>l0 ls. layers n = l0 # ls \<and> length (neurons l0) = nat (layerSizes ! 1)"
proof -
  have upt: "[1..<length layerSizes] = 1 # [Suc 1..<length layerSizes]"
    using assms(2) by (intro upt_conv_Cons) simp
  from assms(1) obtain ls where ls: "emplace_layers layerSizes gens [1..<length layerSizes] = Inr ls"
    and n: "layers n = ls"
    by (cases "emplace_layers layerSizes gens [1..<length layerSizes]")
       (auto simp: NeuralNetwork_init_def)
  from ls obtain l0 ls' where l0: "Layer_init (layerSizes ! 1) (layerSizes ! (1 - 1)) (gens 1) = Inr l0"
    and "ls = l0 # ls'"
    unfolding upt emplace_layers.simps by (auto split: sum.splits)
  moreover from l0 have "length (neurons l0) = nat (layerSizes ! 1)"
    by (auto simp: Layer_init_def Let_def split: if_splits)
  ultimately show ?thesis using n by simp
qed

text \<open>
  Claim C2 fails whenever the second configured size is greater than the first: on a
  constructed network, an input vector of the declared width \<^verbatim>\<open>layerSizes[0]\<close> is read at
  \<^verbatim>\<open>layerSizes[1]\<close> positions, past its end.
\<close>

theorem forward_reads_past_input:
  assumes "NeuralNetwork_init layerSizes lr gens = Inr n"
    and "2 \<le> length layerSizes"
    and "int (length inputValues) = layerSizes ! 0"
    and "layerSizes ! 0 < layerSizes ! 1"
  shows "forwardPropagation n inputValues = Inl OutOfBounds"
proof -
  from NeuralNetwork_init_first_width[OF assms(1,2)]
  obtain l0 ls where l: "layers n = l0 # ls" "length (neurons l0) = nat (layerSizes ! 1)" by blast
  have "\<not> length (neurons l0) \<le> length inputValues" using l(2) assms(3,4) by simp
  then show ?thesis using l(1) by (simp add: forwardPropagation_def set_input_values_def)
qed

text \<open>
  The configuration of \<^verbatim>\<open>main\<close>, with its four features per sample, is such a case.
\<close>

theorem forward_reads_past_input_witness:
  "\<exists>n. NeuralNetwork_init [4, 8, 128, 64, 8, 3] (1/100) (\<lambda>i k. 0) = Inr n
       \<and> forwardPropagation n [0, 0, 0, 0] = Inl OutOfBounds"
proof -
  obtain n where n: "NeuralNetwork_init [4, 8, 128, 64, 8, 3] (1/100) (\<lambda>i k. 0) = Inr n"
    using NeuralNetwork_init_total[of "[4, 8, 128, 64, 8, 3]"] by auto
  have "forwardPropagation n [0, 0, 0, 0] = Inl OutOfBounds"
    using forward_reads_past_input[OF n, of "[0, 0, 0, 0]"] by simp
  with n show ?thesis by blast
qed


subsection \<open>What depends on the activations of a layer only\<close>

lemma getOutputs_length [simp]: "length (getOutputs l) = length (neurons l)"
  by (simp add: getOutputs_def)

lemma getOutputs_nth: "j < length (neurons l) \<Longrightarrow> getOutputs l ! j = value_n (neurons l ! j)"
  by (simp add: getOutputs_def)

lemma getOutputs_reparam [simp]: "getOutputs (reparam_layer g l) = getOutputs l"
  by (rule nth_equalityI) (simp_all add: getOutputs_def reparam_layer_def)

lemma weighted_sum_outputs:
  "weighted_sum prev a =
     (if length (getOutputs prev) \<le> length (weights a)
      then Inr (foldl (\<lambda>acc j. acc + getOutputs prev ! j * weights a ! j) 0 [0..<length (getOutputs prev)])
      else Inl OutOfBounds)"
proof -
  have "foldl (\<lambda>acc j. acc + value_n (neurons prev ! j) * weights a ! j) 0 [0..<length (neurons prev)]
      = foldl (\<lambda>acc j. acc + getOutputs prev ! j * weights a ! j) 0 [0..<length (neurons prev)]"
    by (rule foldl_cong) (simp_all add: getOutputs_nth)
  then show ?thesis by (simp add: weighted_sum_def)
qed

lemma weighted_sum_cong:
  "getOutputs p = getOutputs p' \<Longrightarrow> weighted_sum p a = weighted_sum p' a"
  by (simp only: weighted_sum_outputs)

lemma forward_neurons_cong:
  "getOutputs p = getOutputs p' \<Longrightarrow> forward_neurons b p ns = forward_neurons b p' ns"
  by (induction ns) (simp_all add: forward_neuron_def weighted_sum_cong[of p p'] cong: sum.case_cong)

lemma forward_layer_cong:
  "getOutputs p = getOutputs p' \<Longrightarrow> forward_layer b p l = forward_layer b p' l"
  by (simp add: forward_layer_def forward_neurons_cong[of p p'])

lemma forward_from_cong:
  "getOutputs p = getOutputs p' \<Longrightarrow> forward_from p ls = forward_from p' ls"
  by (cases ls) (simp_all add: forward_layer_cong[of p p'])

lemma set_input_values_reparam:
  "set_input_values (reparam_layer g l) x = map_sum id (reparam_layer g) (set_input_values l x)"
  by (simp add: set_input_values_def reparam_layer_def)

lemma set_first_params_layers:
  "set_first_params g (n\<lparr>layers := l0 # ls\<rparr>) = n\<lparr>layers := reparam_layer g l0 # ls\<rparr>"
  by (simp add: set_first_params_def)

lemma forward_reparam:
  "forwardPropagation (set_first_params g n) x = map_sum id (set_first_params g) (forwardPropagation n x)"
proof (cases "layers n")
  case Nil
  then show ?thesis by (simp add: forwardPropagation_def set_first_params_def)
next
  case (Cons l0 ls)
  show ?thesis
  proof (cases "set_input_values l0 x")
    case (Inl e)
    then show ?thesis using Cons
      by (simp add: forwardPropagation_def set_first_params_def set_input_values_reparam)
  next
    case (Inr l0')
    have "forward_from (reparam_layer g l0') ls = forward_from l0' ls"
      by (rule forward_from_cong) simp
    then show ?thesis using Cons Inr
      by (simp add: forwardPropagation_def set_first_params_def set_input_values_reparam
            split: sum.splits)
  qed
qed

lemma neurons_Nil_outputs: "neurons l = [] \<longleftrightarrow> getOutputs l = []"
  by (simp add: getOutputs_def)

lemma output_deltas_outputs:
  "output_deltas out t =
     (if length (getOutputs out) \<le> length t
      then Inr (map (\<lambda>i. getOutputs out ! i - t ! i) [0..<length (getOutputs out)])
      else Inl OutOfBounds)"
  by (simp add: output_deltas_def getOutputs_nth cong: map_cong)

lemma output_deltas_cong:
  "getOutputs l = getOutputs l' \<Longrightarrow> output_deltas l t = output_deltas l' t"
  by (simp only: output_deltas_outputs)

lemma hidden_delta_layer_outputs:
  "hidden_delta_layer l next nextDeltas =
     (if getOutputs l = [] then Inr []
      else if list_all (\<lambda>nk. length (getOutputs l) \<le> length (weights nk)) (neurons next)
              \<and> length (neurons next) \<le> length nextDeltas
      then Inr (map (\<lambda>j. foldl (\<lambda>sum k. sum + weights (neurons next ! k) ! j * nextDeltas ! k) 0
                             [0..<length (neurons next)]
                           * reluDerivative (getOutputs l ! j))
                  [0..<length (getOutputs l)])
      else Inl OutOfBounds)"
  by (simp add: hidden_delta_layer_def getOutputs_nth neurons_Nil_outputs cong: map_cong)

lemma hidden_delta_layer_cong:
  "getOutputs l = getOutputs l' \<Longrightarrow> hidden_delta_layer l next nd = hidden_delta_layer l' next nd"
  by (simp only: hidden_delta_layer_outputs)

lemma hidden_deltas_cong:
  "getOutputs l = getOutputs l' \<Longrightarrow> hidden_deltas (l # ls) od = hidden_deltas (l' # ls) od"
  by (cases ls) (simp_all add: hidden_delta_layer_cong[of l l'] cong: sum.case_cong)

lemma update_neuron_outputs:
  "update_neuron lr prev delta a =
     (if length (weights a) \<le> length (getOutputs prev)
      then Inr (a\<lparr>weights := map (\<lambda>k. weights a ! k - lr * delta * getOutputs prev ! k)
                                [0..<length (weights a)],
                  bias := bias a - lr * delta\<rparr>)
      else Inl OutOfBounds)"
  by (simp add: update_neuron_def getOutputs_nth cong: map_cong)

lemma update_neuron_cong:
  "getOutputs p = getOutputs p' \<Longrightarrow> update_neuron lr p d a = update_neuron lr p' d a"
  by (simp only: update_neuron_outputs)

lemma update_neurons_cong:
  "getOutputs p = getOutputs p' \<Longrightarrow> update_neurons lr p ds ns = update_neurons lr p' ds ns"
proof (induction ns arbitrary: ds)
  case Nil
  then show ?case by simp
next
  case (Cons a ns)
  then show ?case
    by (cases ds) (simp_all add: update_neuron_cong[of p p'] cong: sum.case_cong)
qed

lemma update_from_cong:
  "getOutputs p = getOutputs p' \<Longrightarrow> update_from lr p ls ds = update_from lr p' ls ds"
  by (cases "(lr, p, ls, ds)" rule: update_from.cases)
     (simp_all add: update_neurons_cong[of p p'] cong: sum.case_cong)

lemma last_reparam_outputs:
  "getOutputs (last (reparam_layer g l0 # ls)) = getOutputs (last (l0 # ls))"
  by simp

lemma backward_reparam:
  "backPropagation (set_first_params g n) t = map_sum id (set_first_params g) (backPropagation n t)"
proof (cases "layers n")
  case Nil
  then show ?thesis by (simp add: backPropagation_def set_first_params_def)
next
  case (Cons l0 ls)
  have od: "output_deltas (last (reparam_layer g l0 # ls)) t = output_deltas (last (l0 # ls)) t"
    by (rule output_deltas_cong) (rule last_reparam_outputs)
  have hd: "hidden_deltas (reparam_layer g l0 # ls) d = hidden_deltas (l0 # ls) d" for d
    by (rule hidden_deltas_cong) simp
  have up: "update_from lr (reparam_layer g l0) ls ds = update_from lr l0 ls ds" for lr ds
    by (rule update_from_cong) simp
  have L: "layers (set_first_params g n) = reparam_layer g l0 # ls"
    and lr: "learningRate (set_first_params g n) = learningRate n"
    and upd: "(set_first_params g n)\<lparr>layers := reparam_layer g l0 # ls'\<rparr>
                = set_first_params g (n\<lparr>layers := l0 # ls'\<rparr>)" for ls'
    using Cons by (simp_all add: set_first_params_def)
  have A: "backPropagation (set_first_params g n) t =
     (case output_deltas (last (l0 # ls)) t of
        Inl e \<Rightarrow> Inl e
      | Inr outputDeltas \<Rightarrow>
          (case hidden_deltas (l0 # ls) outputDeltas of
             Inl e \<Rightarrow> Inl e
           | Inr hiddenDeltas \<Rightarrow>
               (case update_from (learningRate n) l0 ls (tl (hiddenDeltas @ [outputDeltas])) of
                  Inl e \<Rightarrow> Inl e
                | Inr ls' \<Rightarrow> Inr (set_first_params g (n\<lparr>layers := l0 # ls'\<rparr>)))))"
    by (simp only: backPropagation_def L lr list.case od hd up upd)
  have B: "backPropagation n t =
     (case output_deltas (last (l0 # ls)) t of
        Inl e \<Rightarrow> Inl e
      | Inr outputDeltas \<Rightarrow>
          (case hidden_deltas (l0 # ls) outputDeltas of
             Inl e \<Rightarrow> Inl e
           | Inr hiddenDeltas \<Rightarrow>
               (case update_from (learningRate n) l0 ls (tl (hiddenDeltas @ [outputDeltas])) of
                  Inl e \<Rightarrow> Inl e
                | Inr ls' \<Rightarrow> Inr (n\<lparr>layers := l0 # ls'\<rparr>))))"
    by (simp only: backPropagation_def Cons list.case)
  show ?thesis unfolding A B by (simp split: sum.splits)
qed

lemma train_samples_reparam:
  "train_samples (set_first_params g n) inputs targets
     = map_sum id (set_first_params g) (train_samples n inputs targets)"
proof (induction inputs arbitrary: n targets)
  case Nil
  then show ?case by simp
next
  case (Cons x xs)
  show ?case
    by (simp add: forward_reparam backward_reparam Cons.IH split: sum.splits list.splits)
qed

lemma train_epochs_reparam:
  "train_epochs k (set_first_params g n) inputs targets
     = map_sum id (set_first_params g) (train_epochs k n inputs targets)"
  by (induction k arbitrary: n) (simp_all add: train_samples_reparam split: sum.splits)

lemma layers_reparam_Nil [simp]: "layers (set_first_params g n) = [] \<longleftrightarrow> layers n = []"
  by (simp add: set_first_params_def split: list.splits)

lemma argmax_reparam:
  "max_element (\<lambda>a b. value_n a < value_n b) (neurons (last (layers (set_first_params g n))))
     = max_element (\<lambda>a b. value_n a < value_n b) (neurons (last (layers n)))"
proof (cases "layers n")
  case Nil
  then show ?thesis by (simp add: set_first_params_def)
next
  case (Cons l0 ls)
  have "getOutputs (last (layers (set_first_params g n))) = getOutputs (last (layers n))"
    using Cons by (simp add: set_first_params_def)
  moreover have "max_element (\<lambda>a b. value_n a < value_n b) (neurons l) = max_element (<) (getOutputs l)" for l
    unfolding getOutputs_def by (rule max_element_key)
  ultimately show ?thesis by simp
qed

lemma predict_reparam:
  "predict (set_first_params g n) x
     = map_sum id (map_prod id (set_first_params g)) (predict n x)"
proof (cases "forwardPropagation n x")
  case (Inl e)
  then show ?thesis by (simp add: predict_def forward_reparam)
next
  case (Inr n')
  then show ?thesis by (simp add: predict_def forward_reparam argmax_reparam)
qed

lemma count_correct_reparam:
  "count_correct (set_first_params g n) c inputs outputs
     = map_sum id (map_prod id (set_first_params g)) (count_correct n c inputs outputs)"
proof (induction inputs arbitrary: n c outputs)
  case Nil
  then show ?case by simp
next
  case (Cons x xs)
  show ?case
  proof (cases "forwardPropagation n x")
    case (Inl e)
    then show ?thesis by (simp add: forward_reparam)
  next
    case (Inr n')
    then show ?thesis
      by (cases outputs) (simp_all add: forward_reparam argmax_reparam Cons.IH Let_def)
  qed
qed

lemma evaluateAccuracy_reparam:
  "evaluateAccuracy (set_first_params g n) inputs outputs
     = map_sum id (map_prod id (set_first_params g)) (evaluateAccuracy n inputs outputs)"
  by (simp add: evaluateAccuracy_def count_correct_reparam split: sum.splits prod.splits)

subsection \<open>The parameters of the first layer are never written\<close>

lemma set_input_values_params:
  "set_input_values l x = Inr l' \<Longrightarrow>
     map (\<lambda>a. (weights a, bias a)) (neurons l') = map (\<lambda>a. (weights a, bias a)) (neurons l)"
  by (auto simp: set_input_values_def split: if_splits intro!: nth_equalityI)

lemma forward_first_params:
  "forwardPropagation n x = Inr n' \<Longrightarrow> first_params n' = first_params n"
  by (auto simp: forwardPropagation_def first_params_def split: list.splits sum.splits
        dest: set_input_values_params)

lemma backward_first_params:
  "backPropagation n t = Inr n' \<Longrightarrow> first_params n' = first_params n"
  by (auto simp: backPropagation_def first_params_def split: list.splits sum.splits)

lemma train_samples_first_params:
  "train_samples n inputs targets = Inr n' \<Longrightarrow> first_params n' = first_params n"
proof (induction inputs arbitrary: n targets)
  case Nil
  then show ?case by simp
next
  case (Cons x xs)
  then show ?case
    by (auto split: sum.splits list.splits dest!: forward_first_params backward_first_params)
qed

lemma train_epochs_first_params:
  "train_epochs k n inputs targets = Inr n' \<Longrightarrow> first_params n' = first_params n"
proof (induction k arbitrary: n)
  case 0
  then show ?case by simp
next
  case (Suc k)
  then show ?case
    by (auto split: sum.splits dest!: train_samples_first_params)
qed

lemma predict_first_params:
  "predict n x = Inr (c, n') \<Longrightarrow> first_params n' = first_params n"
  by (auto simp: predict_def split: sum.splits if_splits dest: forward_first_params)

lemma count_correct_first_params:
  "count_correct n c inputs outputs = Inr (c', n') \<Longrightarrow> first_params n' = first_params n"
proof (induction inputs arbitrary: n c outputs)
  case Nil
  then show ?case by simp
next
  case (Cons x xs)
  then show ?case
    by (auto simp: Let_def split: sum.splits list.splits if_splits dest!: forward_first_params)
qed

lemma evaluateAccuracy_first_params:
  "evaluateAccuracy n inputs outputs = Inr (q, n') \<Longrightarrow> first_params n' = first_params n"
  by (auto simp: evaluateAccuracy_def split: sum.splits prod.splits dest: count_correct_first_params)

text \<open>
  Claim C10: the weights and the bias of \<^verbatim>\<open>layers[0]\<close> are never read and never
  written.  Never read: replacing them by anything at all before a call of
  \<open>forwardPropagation\<close>, \<open>backPropagation\<close>, \<open>train\<close>, \<open>predict\<close> or \<open>evaluateAccuracy\<close>
  gives the same failure or the same result, the same predicted class and the same
  accuracy, with the replaced parameters still in place.  Never written: whenever one of
  the five returns a network, its first layer has the weights and biases it had before.
\<close>

theorem first_layer_params_never_used:
  "forwardPropagation (set_first_params g n) x
     = map_sum id (set_first_params g) (forwardPropagation n x)
   \<and> backPropagation (set_first_params g n) t
     = map_sum id (set_first_params g) (backPropagation n t)
   \<and> train (set_first_params g n) inputs targets epochs
     = map_sum id (set_first_params g) (train n inputs targets epochs)
   \<and> predict (set_first_params g n) x
     = map_sum id (map_prod id (set_first_params g)) (predict n x)
   \<and> evaluateAccuracy (set_first_params g n) inputs outputs
     = map_sum id (map_prod id (set_first_params g)) (evaluateAccuracy n inputs outputs)
   \<and> map_sum id first_params (forwardPropagation n x)
     = map_sum id (\<lambda>n'. first_params n) (forwardPropagation n x)
   \<and> map_sum id first_params (backPropagation n t)
     = map_sum id (\<lambda>n'. first_params n) (backPropagation n t)
   \<and> map_sum id first_params (train n inputs targets epochs)
     = map_sum id (\<lambda>n'. first_params n) (train n inputs targets epochs)
   \<and> map_sum id (\<lambda>r. first_params (snd r)) (predict n x)
     = map_sum id (\<lambda>r. first_params n) (predict n x)
   \<and> map_sum id (\<lambda>r. first_params (snd r)) (evaluateAccuracy n inputs outputs)
     = map_sum id (\<lambda>r. first_params n) (evaluateAccuracy n inputs outputs)"
proof (intro conjI)
  show "forwardPropagation (set_first_params g n) x
     = map_sum id (set_first_params g) (forwardPropagation n x)"
    by (rule forward_reparam)
  show "backPropagation (set_first_params g n) t
     = map_sum id (set_first_params g) (backPropagation n t)"
    by (rule backward_reparam)
  show "train (set_first_params g n) inputs targets epochs
     = map_sum id (set_first_params g) (train n inputs targets epochs)"
    unfolding train_def by (rule train_epochs_reparam)
  show "predict (set_first_params g n) x
     = map_sum id (map_prod id (set_first_params g)) (predict n x)"
    by (rule predict_reparam)
  show "evaluateAccuracy (set_first_params g n) inputs outputs
     = map_sum id (map_prod id (set_first_params g)) (evaluateAccuracy n inputs outputs)"
    by (rule evaluateAccuracy_reparam)
  show "map_sum id first_params (forwardPropagation n x)
     = map_sum id (\<lambda>n'. first_params n) (forwardPropagation n x)"
    by (cases "forwardPropagation n x") (simp_all add: forward_first_params)
  show "map_sum id first_params (backPropagation n t)
     = map_sum id (\<lambda>n'. first_params n) (backPropagation n t)"
    by (cases "backPropagation n t") (simp_all add: backward_first_params)
  show "map_sum id first_params (train n inputs targets epochs)
     = map_sum id (\<lambda>n'. first_params n) (train n inputs targets epochs)"
    unfolding train_def
    by (cases "train_epochs (nat epochs) n inputs targets") (simp_all add: train_epochs_first_params)
  show "map_sum id (\<lambda>r. first_params (snd r)) (predict n x)
     = map_sum id (\<lambda>r. first_params n) (predict n x)"
  proof (cases "predict n x")
    case (Inr r)
    then show ?thesis by (cases r) (simp add: predict_first_params)
  qed simp
  show "map_sum id (\<lambda>r. first_params (snd r)) (evaluateAccuracy n inputs outputs)
     = map_sum id (\<lambda>r. first_params n) (evaluateAccuracy n inputs outputs)"
  proof (cases "evaluateAccuracy n inputs outputs")
    case (Inr r)
    then show ?thesis by (cases r) (simp add: evaluateAccuracy_first_params)
  qed simp
qed

theorem first_layer_params_never_used_witness:
  "map_sum id (\<lambda>n. map getOutputs (layers n))
      (forwardPropagation (set_first_params (\<lambda>j. ([7, 8], 9)) example_net) [2])
     = map_sum id (\<lambda>n. map getOutputs (layers n)) (forwardPropagation example_net [2])
   \<and> first_params (set_first_params (\<lambda>j. ([7, 8], 9)) example_net) = [([7, 8], 9)]
   \<and> map_sum id first_params (forwardPropagation example_net [2]) = Inr [([1/2], 1/2)]"
  using first_layer_params_never_used[of "\<lambda>j. ([7, 8], 9)" example_net "[2]" "[1, 0]" "[]" "[]" 0 "[]"]
  by (simp add: forwardPropagation_def example_net_def set_input_values_def getOutputs_def
        forward_layer_def forward_neuron_def weighted_sum_def relu_def softmax_def
        max_element_def Let_def set_first_params_def reparam_layer_def first_params_def)

text \<open>
  Claim C3 at \<open>example_net\<close>: after a forward pass on \<open>[2]\<close> and a backward pass on the
  target \<open>[1, 0]\<close> the second layer has moved, each weight by the learning rate times
  the neuron's output delta times the activation \<open>2\<close> below it, and the first real layer
  still has its weight \<open>1/2\<close> and bias \<open>1/2\<close>, although its delta, \<open>1/2\<close> times the first
  output delta, is not zero: the update loop ends before \<^verbatim>\<open>layers[0]\<close>.
\<close>

theorem backward_leaves_first_layer_example:
  "map_sum id params_of
     (case forwardPropagation example_net [2] of
        Inl e \<Rightarrow> Inl e
      | Inr n1 \<Rightarrow> backPropagation n1 [1, 0])
   = Inr (1/100,
          [[([1/2], 1/2)],
           [([1/2 - (2 / (1 + exp (- 1)) - 2) / 100], - ((1 / (1 + exp (- 1)) - 1) / 100)),
            ([- (exp (- 1) * 2 / (100 + 100 * exp (- 1)))], - (exp (- 1) / (100 + 100 * exp (- 1))))]])"
  by (simp add: forwardPropagation_def example_net_def set_input_values_def getOutputs_def
        forward_layer_def forward_neuron_def weighted_sum_def relu_def softmax_def
        max_element_def Let_def backPropagation_def output_deltas_def hidden_delta_layer_def
        update_neuron_def params_of_def reluDerivative_def)

text \<open>
  Claim C8 on a network of one layer with every weight and bias zero: the output is the
  input \<open>[1, 2]\<close>, not the uniform \<open>[1/2, 1/2]\<close>.
\<close>

theorem zero_network_single_layer_example:
  "map_sum id (\<lambda>n. getOutputs (last (layers n)))
     (forwardPropagation
        \<lparr>layers = [\<lparr>neurons = [\<lparr>value_n = 0, weights = [0, 0], bias = 0\<rparr>,
                                  \<lparr>value_n = 0, weights = [0, 0], bias = 0\<rparr>]\<rparr>],
          learningRate = lr\<rparr> [1, 2]) = Inr [1, 2]"
  by (simp add: forwardPropagation_def set_input_values_def getOutputs_def)

subsection \<open>Training depends on the parameters only\<close>

lemma clear_neuron_eq: "clear_neuron a = \<lparr>value_n = 0, weights = weights a, bias = bias a\<rparr>"
  by (cases a) (simp add: clear_neuron_def)

lemma clear_layer_eq: "clear_layer l = \<lparr>neurons = map clear_neuron (neurons l)\<rparr>"
  by (cases l) (simp add: clear_layer_def)

lemma rebuild_params:
  "rebuild (params_of n) = \<lparr>layers = map clear_layer (layers n), learningRate = learningRate n\<rparr>"
  by (simp add: rebuild_def params_of_def clear_layer_eq clear_neuron_eq comp_def)

lemma forward_neuron_clear: "forward_neuron b p (clear_neuron a) = forward_neuron b p a"
  by (cases a) (simp add: forward_neuron_def weighted_sum_def clear_neuron_def)

lemma forward_neurons_clear: "forward_neurons b p (map clear_neuron ns) = forward_neurons b p ns"
  by (induction ns) (simp_all add: forward_neuron_clear cong: sum.case_cong)

lemma forward_layer_clear: "forward_layer b p (clear_layer l) = forward_layer b p l"
  by (cases l) (simp add: forward_layer_def clear_layer_def forward_neurons_clear cong: sum.case_cong if_cong)

lemma forward_from_clear: "forward_from p (map clear_layer ls) = forward_from p ls"
  by (induction ls arbitrary: p) (simp_all add: forward_layer_clear cong: sum.case_cong)

lemma set_input_values_clear: "set_input_values (clear_layer l) x = set_input_values l x"
  by (cases l) (simp add: set_input_values_def clear_layer_def clear_neuron_def)

lemma forward_rebuild: "forwardPropagation n x = map_sum id (\<lambda>m. m\<lparr>learningRate := learningRate n\<rparr>) (forwardPropagation (rebuild (params_of n)) x)"
proof (cases "layers n")
  case Nil
  then show ?thesis by (simp add: forwardPropagation_def rebuild_params)
next
  case (Cons l0 ls)
  then show ?thesis
    by (cases n) (simp add: forwardPropagation_def rebuild_params set_input_values_clear forward_from_clear
          split: sum.splits)
qed

lemma forward_params_cong:
  assumes "params_of n1 = params_of n2"
  shows "forwardPropagation n1 x = forwardPropagation n2 x"
proof -
  have "learningRate n1 = learningRate n2" using assms by (simp add: params_of_def)
  then show ?thesis using forward_rebuild[of n1 x] forward_rebuild[of n2 x] assms by simp
qed

lemma train_samples_params:
  assumes "params_of n1 = params_of n2"
  shows "map_sum id params_of (train_samples n1 inputs targets)
       = map_sum id params_of (train_samples n2 inputs targets)"
proof (cases inputs)
  case Nil
  then show ?thesis using assms by simp
next
  case (Cons x xs)
  then show ?thesis by (simp add: forward_params_cong[OF assms])
qed

lemma train_epochs_params:
  assumes "params_of n1 = params_of n2"
  shows "map_sum id params_of (train_epochs k n1 inputs targets)
       = map_sum id params_of (train_epochs k n2 inputs targets)"
  using assms
proof (induction k arbitrary: n1 n2)
  case 0
  then show ?case by simp
next
  case (Suc k)
  from train_samples_params[OF Suc.prems, of inputs targets]
  show ?case
  proof (cases "train_samples n1 inputs targets")
    case (Inl e)
    with \<open>map_sum id params_of (train_samples n1 inputs targets) = map_sum id params_of (train_samples n2 inputs targets)\<close>
    have "train_samples n2 inputs targets = Inl e" by (cases "train_samples n2 inputs targets") simp_all
    with Inl show ?thesis by simp
  next
    case (Inr m1)
    with \<open>map_sum id params_of (train_samples n1 inputs targets) = map_sum id params_of (train_samples n2 inputs targets)\<close>
    obtain m2 where m2: "train_samples n2 inputs targets = Inr m2" "params_of m1 = params_of m2"
      by (cases "train_samples n2 inputs targets") simp_all
    with Inr Suc.IH[OF m2(2)] show ?thesis by simp
  qed
qed

text \<open>
  Where no read is out of bounds, the outcome of training is a function of the learning
  rate, the weights and the biases alone: two networks that agree on them, trained on the
  same samples in the same order for the same number of epochs, both fail or end with
  the same weights and biases, whatever activations they held at the start.
\<close>

lemma train_deterministic:
  "params_of n1 = params_of n2 \<Longrightarrow>
     map_sum id params_of (train n1 inputs targets epochs)
       = map_sum id params_of (train n2 inputs targets epochs)"
  unfolding train_def by (rule train_epochs_params)

lemma train_deterministic_example:
  "params_of example_net
       = params_of (example_net\<lparr>layers := map (\<lambda>l. l\<lparr>neurons := map (\<lambda>a. a\<lparr>value_n := 7\<rparr>) (neurons l)\<rparr>) (layers example_net)\<rparr>)
   \<and> map_sum id params_of (train example_net [[2]] [[1, 0]] 3)
       = map_sum id params_of
           (train (example_net\<lparr>layers := map (\<lambda>l. l\<lparr>neurons := map (\<lambda>a. a\<lparr>value_n := 7\<rparr>) (neurons l)\<rparr>) (layers example_net)\<rparr>)
              [[2]] [[1, 0]] 3)"
  using train_deterministic[of example_net
      "example_net\<lparr>layers := map (\<lambda>l. l\<lparr>neurons := map (\<lambda>a. a\<lparr>value_n := 7\<rparr>) (neurons l)\<rparr>) (layers example_net)\<rparr>"
      "[[2]]" "[[1, 0]]" 3]
  by (simp add: params_of_def example_net_def rebuild_def)



subsection \<open>Inputs that the specification calls invalid\<close>

text \<open>
  Claim C5, as the code has it: on zero samples \<open>evaluateAccuracy\<close> runs no forward
  pass, divides zero by zero and returns the outcome of that division, which is not a
  number; the network is untouched and no failure is signalled.
\<close>

theorem evaluateAccuracy_empty: "evaluateAccuracy n [] outputs = Inr (NaN, n)"
  by (simp add: evaluateAccuracy_def double_div_def)

theorem evaluateAccuracy_empty_example:
  "map_sum id fst (evaluateAccuracy example_net [] []) = Inr NaN"
  by (simp add: evaluateAccuracy_def double_div_def)

lemma train_epochs_no_samples: "train_epochs k n [] targets = Inr n"
  by (induction k) simp_all

lemma set_input_values_take:
  "set_input_values l x = set_input_values l (take (length (neurons l)) x)"
  by (simp add: set_input_values_def cong: map_cong)

lemma output_deltas_take:
  "output_deltas out t = output_deltas out (take (length (neurons out)) t)"
  by (simp add: output_deltas_def cong: map_cong)

text \<open>
  Claim C6, as the code has it: nothing is checked.  A sequence of fewer than two layer
  sizes constructs a network without layers; the learning rate is stored whatever it is;
  \<open>train\<close> with an epoch count that is not positive, or with no samples, returns the
  network unchanged; and of an input or target vector only the first entries, as many
  as the layer that is read has neurons, are looked at, so that a vector that is too
  long is silently cut.
\<close>

theorem preconditions_unchecked:
  "(length layerSizes < 2 \<longrightarrow>
      NeuralNetwork_init layerSizes lr gens = Inr \<lparr>layers = [], learningRate = lr\<rparr>)
   \<and> NeuralNetwork_init layerSizes lr gens
       = map_sum id (\<lambda>n. n\<lparr>learningRate := lr\<rparr>) (NeuralNetwork_init layerSizes lr' gens)
   \<and> (epochs \<le> 0 \<longrightarrow> train n inputs targets epochs = Inr n)
   \<and> train n [] targets epochs = Inr n
   \<and> (layers n \<noteq> [] \<longrightarrow>
        forwardPropagation n inputValues
          = forwardPropagation n (take (length (neurons (hd (layers n)))) inputValues))
   \<and> (layers n \<noteq> [] \<longrightarrow>
        backPropagation n targetValues
          = backPropagation n (take (length (neurons (last (layers n)))) targetValues))"
proof (intro conjI impI)
  assume "length layerSizes < 2"
  then have e: "[1..<length layerSizes] = []" by simp
  show "NeuralNetwork_init layerSizes lr gens = Inr \<lparr>layers = [], learningRate = lr\<rparr>"
    unfolding NeuralNetwork_init_def e by simp
next
  show "NeuralNetwork_init layerSizes lr gens
       = map_sum id (\<lambda>n. n\<lparr>learningRate := lr\<rparr>) (NeuralNetwork_init layerSizes lr' gens)"
    by (simp add: NeuralNetwork_init_def split: sum.splits)
next
  assume "epochs \<le> 0"
  then show "train n inputs targets epochs = Inr n" by (simp add: train_def)
next
  show "train n [] targets epochs = Inr n" by (simp add: train_def train_epochs_no_samples)
next
  assume "layers n \<noteq> []"
  then obtain l0 ls where l: "layers n = l0 # ls" by (cases "layers n") auto
  show "forwardPropagation n inputValues
          = forwardPropagation n (take (length (neurons (hd (layers n)))) inputValues)"
    unfolding forwardPropagation_def l list.case list.sel
    by (simp only: set_input_values_take[of l0 inputValues, symmetric])
next
  assume "layers n \<noteq> []"
  then obtain l0 ls where l: "layers n = l0 # ls" by (cases "layers n") auto
  show "backPropagation n targetValues
          = backPropagation n (take (length (neurons (last (layers n)))) targetValues)"
    unfolding backPropagation_def l list.case
    by (simp only: output_deltas_take[of "last (l0 # ls)" targetValues, symmetric])
qed

theorem preconditions_unchecked_witness:
  "length [3 :: int] < 2
   \<and> NeuralNetwork_init [3] 0 (\<lambda>i k. 0) = Inr \<lparr>layers = [], learningRate = 0\<rparr>
   \<and> (- 5 :: int) \<le> 0
   \<and> train zero_net [[5]] [[1, 0]] (- 5) = Inr zero_net
   \<and> train zero_net [] [] 3 = Inr zero_net
   \<and> layers zero_net \<noteq> []
   \<and> forwardPropagation zero_net [5, 6, 7] = forwardPropagation zero_net [5]
   \<and> backPropagation zero_net [1, 0, 9] = backPropagation zero_net [1, 0]"
  using preconditions_unchecked[of "[3]" 0 "\<lambda>i k. 0" 0 "- 5" zero_net "[[5]]" "[[1, 0]]" "[5, 6, 7]" "[1, 0, 9]"]
    preconditions_unchecked[of "[3]" 0 "\<lambda>i k. 0" 0 3 zero_net "[]" "[]" "[5, 6, 7]" "[1, 0, 9]"]
  by (simp add: zero_net_def)

text \<open>
  A one-entry size sequence and a negative learning rate are accepted.
\<close>

theorem preconditions_unchecked_example:
  "NeuralNetwork_init [3] (- 1) (\<lambda>i k. 0) = Inr \<lparr>layers = [], learningRate = - 1\<rparr>"
  by (simp add: NeuralNetwork_init_def)

subsection \<open>Prediction\<close>

lemma forward_layers_nonempty: "forwardPropagation n x = Inr n' \<Longrightarrow> layers n' \<noteq> []"
  by (auto simp: forwardPropagation_def split: list.splits sum.splits)

text \<open>
  The decision rule of \<open>predict\<close>: when the forward pass on the input succeeds and the
  output layer has a neuron, \<open>predict\<close> returns the network after that pass and an index
  within the output layer, at which the output activation is the maximum and before
  which every output activation is smaller.
\<close>

lemma predict_first_maximum:
  assumes "forwardPropagation n input = Inr n'"
    and "getOutputs (last (layers n')) \<noteq> []"
  shows "\<exists>idx. predict n input = Inr (int idx, n')
           \<and> idx < length (getOutputs (last (layers n')))
           \<and> getOutputs (last (layers n')) ! idx = Max (set (getOutputs (last (layers n'))))
           \<and> (\<forall>j<idx. getOutputs (last (layers n')) ! j < getOutputs (last (layers n')) ! idx)"
proof -
  let ?out = "getOutputs (last (layers n'))"
  let ?idx = "max_element (\<lambda>a b. value_n a < value_n b) (neurons (last (layers n')))"
  have idx: "?idx = max_element (<) ?out"
    unfolding getOutputs_def by (rule max_element_key)
  have "predict n input = Inr (int ?idx, n')"
    using assms(1) forward_layers_nonempty[OF assms(1)] by (simp add: predict_def)
  moreover have "?idx < length ?out"
    unfolding idx by (rule max_element_first_max(1)[OF assms(2)])
  moreover have "?out ! ?idx = Max (set ?out)"
    unfolding idx by (rule max_element_Max[OF assms(2)])
  moreover have "\<forall>j<?idx. ?out ! j < ?out ! ?idx"
    unfolding idx by (rule max_element_first_max(3)[OF assms(2)])
  ultimately show ?thesis by blast
qed

lemma zero_net_forward:
  "forwardPropagation zero_net [5] =
     Inr \<lparr>layers =
        [\<lparr>neurons = [\<lparr>value_n = 5, weights = [0], bias = 0\<rparr>]\<rparr>,
         \<lparr>neurons = [\<lparr>value_n = 1/2, weights = [0], bias = 0\<rparr>,
                     \<lparr>value_n = 1/2, weights = [0], bias = 0\<rparr>]\<rparr>],
      learningRate = 1/100\<rparr>"
  by (simp add: forwardPropagation_def zero_net_def set_input_values_def getOutputs_def
        forward_layer_def forward_neuron_def weighted_sum_def relu_def softmax_def
        max_element_def Let_def)

lemma predict_first_maximum_example:
  "map_sum id fst (predict zero_net [5]) = Inr 0
   \<and> map_sum id (\<lambda>n. getOutputs (last (layers n))) (forwardPropagation zero_net [5]) = Inr [1/2, 1/2]"
proof -
  let ?n' = "\<lparr>layers =
        [\<lparr>neurons = [\<lparr>value_n = 5, weights = [0], bias = 0\<rparr>]\<rparr>,
         \<lparr>neurons = [\<lparr>value_n = 1/2, weights = [0], bias = 0\<rparr>,
                     \<lparr>value_n = 1/2, weights = [0], bias = 0\<rparr>]\<rparr>],
      learningRate = 1/100\<rparr>"
  have out: "getOutputs (last (layers ?n')) = [1/2, 1/2]" by (simp add: getOutputs_def)
  from predict_first_maximum[OF zero_net_forward, unfolded out]
  obtain idx where p: "predict zero_net [5] = Inr (int idx, ?n')"
    and less: "\<forall>j<idx. [1/2, 1/2 :: real] ! j < [1/2, 1/2] ! idx" and "idx < length [1/2, 1/2 :: real]"
    by auto
  have "idx = 0"
  proof (rule ccontr)
    assume "idx \<noteq> 0"
    with \<open>idx < length [1/2, 1/2 :: real]\<close> have "idx = 1" by simp
    with less have "[1/2, 1/2 :: real] ! 0 < [1/2, 1/2] ! 1" by blast
    then show False by simp
  qed
  with p show ?thesis by (simp add: zero_net_forward getOutputs_def)
qed



end
